theory Spec2Isabelle
  imports Main "HOL-Library.AList" "HOL-Library.Sublist"
begin

section \<open>The client of src/client.ts\<close>

text \<open>
  The class \<open>Client\<close> turns calls such as \<open>download\<close> or \<open>abort\<close> into calls on a
  \<open>TasksManager\<close> (the scheduler of \<open>./tasks\<close>) and on a pool of \<open>Strategy\<close> instances
  (the connections). Only \<open>client.ts\<close> is at hand; everything the client merely calls
  is a collaborator, and the model records each call on a collaborator as an event of
  a trace, in the order in which the source makes it. The listeners of the client's
  events and the calls on the scheduler are taken to return normally and to leave the
  fields of the client alone. A method is followed on its own, from its call to the
  settlement of its promise; what a collaborator does meanwhile is a parameter.

  JavaScript numbers are modelled as \<open>int\<close> (pool sizes, task ids and worker indices
  are integers in every use the client makes of them), strings as \<open>string\<close>.
\<close>

subsection \<open>Errors and promises\<close>

datatype error =
    Error string   \<comment> \<open>\<open>new Error(message)\<close>\<close>
  | TypeError      \<comment> \<open>raised by the runtime: a property of \<open>undefined\<close>, a call of a non-function\<close>
  | Reason nat     \<comment> \<open>a rejection coming from a collaborator\<close>

text \<open>
  How a promise ends: fulfilled with a value, rejected with an error, or never settled.
  An \<open>async\<close> method of the client returns a promise, so a \<open>throw\<close> in its body is the
  rejection of that promise.
\<close>

datatype 'a promise = Fulfilled 'a | Rejected error | Pending

subsection \<open>Configuration, strategies and workers\<close>

record config =
  protocol :: string
  host :: string

datatype conn_options = ConnOptions nat

record client_options =
  pool :: int
  transferPool :: bool   \<comment> \<open>optional in the source; absent is falsy, as \<open>False\<close>\<close>

datatype strategy_class = FtpStrategy | SftpStrategy | OtherStrategy nat

text \<open>A Strategy instance, \<open>new strategy(this.config, this._connectionOptions)\<close>.\<close>

datatype worker = Strategy strategy_class config "conn_options option"

text \<open>
  A value of the transfer registry \<open>Map<number, number>\<close>: \<open>null\<close> until the task is
  given a connection, then the index of the worker.
\<close>

datatype worker_index = Unassigned | Assigned int

subsection \<open>The scheduler as the client sees it\<close>

text \<open>The entry the scheduler keeps for a worker; the client's filter reads its label.\<close>

record task_worker =
  wgroup :: string

record tasks_manager =
  taskWorkers :: "task_worker list"
  taskCounter :: int
  pendingTasks :: "int list"
  runningTasks :: "int list"

text \<open>
  Modelled from the spec: \<open>TasksManager.setWorkers(...groups)\<close> of \<open>./tasks\<close> is not at
  hand. The spec has the pool as an ordered list of connections, each tagged with the
  group label assigned at construction: connection \<open>k\<close> gets \<open>groups[k]\<close>.
\<close>

definition tasks_setWorkers :: "string list \<Rightarrow> tasks_manager \<Rightarrow> tasks_manager" where
  "tasks_setWorkers groups t = t\<lparr>taskWorkers := map (\<lambda>g. \<lparr>wgroup = g\<rparr>) groups\<rparr>"

text \<open>
  Modelled from the spec: \<open>TasksManager.createTaskId()\<close> is not at hand. The spec has it
  allocate the next identity from a monotonically increasing counter.
\<close>

definition tasks_createTaskId :: "tasks_manager \<Rightarrow> int \<times> tasks_manager" where
  "tasks_createTaskId t = (taskCounter t, t\<lparr>taskCounter := taskCounter t + 1\<rparr>)"

text \<open>
  Modelled from the spec: \<open>TasksManager.deleteAllTasks()\<close> is not at hand. The spec has it
  cancel every pending task and leave the running tasks untouched.
\<close>

definition tasks_deleteAllTasks :: "tasks_manager \<Rightarrow> tasks_manager" where
  "tasks_deleteAllTasks t = t\<lparr>pendingTasks := []\<rparr>"

text \<open>
  Modelled from the spec: \<open>TasksManager.deleteTasks(...ids)\<close> is not at hand. The spec has
  it cancel only the pending tasks with the given identities.
\<close>

definition tasks_deleteTasks :: "int list \<Rightarrow> tasks_manager \<Rightarrow> tasks_manager" where
  "tasks_deleteTasks ids t = t\<lparr>pendingTasks := filter (\<lambda>i. i \<notin> set ids) (pendingTasks t)\<rparr>"

subsection \<open>The state of a client\<close>

record client =
  config :: "config option"                     \<comment> \<open>\<open>_config\<close>, read through the getter \<open>config\<close>\<close>
  connectionOptions :: "conn_options option"    \<comment> \<open>\<open>_connectionOptions\<close>\<close>
  options :: client_options
  workers :: "worker list"
  tasks :: tasks_manager
  transfers :: "(int \<times> worker_index) list"     \<comment> \<open>a \<open>Map\<close>: keys in insertion order\<close>
  strategies :: "(string \<times> strategy_class) list"

text \<open>
  The operations of a JavaScript \<open>Map\<close> that the client uses. \<open>set\<close> overwrites the
  value of a key that is there and appends a new key at the end; \<open>keys()\<close> lists the
  keys in insertion order; \<open>get\<close> of a missing key is \<open>undefined\<close>, here \<open>None\<close>.
\<close>

definition Map_set :: "'k \<Rightarrow> 'v \<Rightarrow> ('k \<times> 'v) list \<Rightarrow> ('k \<times> 'v) list" where
  "Map_set k v m = AList.update k v m"

definition Map_delete :: "'k \<Rightarrow> ('k \<times> 'v) list \<Rightarrow> ('k \<times> 'v) list" where
  "Map_delete k m = AList.delete k m"

definition Map_get :: "('k \<times> 'v) list \<Rightarrow> 'k \<Rightarrow> 'v option" where
  "Map_get m k = map_of m k"

definition Map_keys :: "('k \<times> 'v) list \<Rightarrow> 'k list" where
  "Map_keys m = map fst m"

text \<open>
  Modelled from the spec: the constructor of \<open>TasksManager\<close> is not at hand. A new
  scheduler has no workers and no tasks; the start of its counter is not fixed by
  anything at hand and is taken to be 0.
\<close>

definition new_TasksManager :: tasks_manager where
  "new_TasksManager = \<lparr>taskWorkers = [], taskCounter = 0, pendingTasks = [], runningTasks = []\<rparr>"

text \<open>
  The constructor, \<open>this.options = { pool: 1, ...options }\<close>: the pool size is 1 unless
  the caller gives one. Three protocols are registered from the start.
\<close>

definition new_Client :: "int option \<Rightarrow> bool \<Rightarrow> client" where
  "new_Client p tp =
     \<lparr>config = None, connectionOptions = None,
      options = \<lparr>pool = (case p of None \<Rightarrow> 1 | Some n \<Rightarrow> n), transferPool = tp\<rparr>,
      workers = [], tasks = new_TasksManager, transfers = [],
      strategies = [(''ftp'', FtpStrategy), (''ftps'', FtpStrategy), (''sftp'', SftpStrategy)]\<rparr>"

subsection \<open>Worker groups\<close>

text \<open>
  Modelled from the spec: \<open>repeat\<close> of \<open>./utils/array\<close> is not at hand; \<open>repeat(v, n)\<close> is
  the array of \<open>n\<close> copies of \<open>v\<close>. What it does for a negative count is not fixed by
  anything at hand, and no theorem below uses it there.
\<close>

definition repeat :: "'a \<Rightarrow> int \<Rightarrow> 'a list" where
  "repeat v n = replicate (nat n) v"

definition setWorkerGroups :: "client \<Rightarrow> client" where
  "setWorkerGroups c =
     (let p = pool (options c);
          groups = (if \<not> transferPool (options c) \<or> p = 1
                    then repeat ''all'' p
                    else ''misc'' # repeat ''transfer'' (p - 1))
      in c\<lparr>tasks := tasks_setWorkers groups (tasks c)\<rparr>)"

text \<open>
  \<open>workerFilter(worker, group)\<close>. The requested group is optional; \<open>!group\<close> holds of an
  absent group and of the empty string.
\<close>

definition falsy :: "string option \<Rightarrow> bool" where
  "falsy g = (g = None \<or> g = Some [])"

definition workerFilter :: "task_worker \<Rightarrow> string option \<Rightarrow> bool" where
  "workerFilter w g =
     (wgroup w = ''all'' \<or> (falsy g \<and> wgroup w = ''misc'') \<or> Some (wgroup w) = g)"

subsection \<open>Events\<close>

record direction =
  remotePath :: string
  localPath :: string

record transfer = direction +
  transfer_id :: int   \<comment> \<open>the field \<open>id\<close> of \<open>ITransfer\<close>\<close>

text \<open>The descriptor handed to \<open>instance.download\<close> and \<open>instance.upload\<close>.\<close>

record transfer_info = transfer +
  startAt :: "int option"
  totalBytes :: int

datatype capability =
    Connect | Disconnect | Abort
  | Size string | Download transfer_info | Upload transfer_info

datatype payload = Ids "int list" | Info transfer

text \<open>
  The calls on \<open>this.tasks\<close> whose order matters. An argument of \<open>pauseWorkers\<close> and
  \<open>resumeWorkers\<close> is what \<open>this.transfers.get(id)\<close> gave: \<open>None\<close> for \<open>undefined\<close>,
  \<open>Some Unassigned\<close> for \<open>null\<close>, \<open>Some (Assigned i)\<close> for the index \<open>i\<close>.
\<close>

datatype tasks_call =
    DeleteAllTasks
  | DeleteTasks "int list"
  | PauseWorkers "worker_index option list"
  | ResumeWorkers "worker_index option list"
  | Handle "string option" "int option"

datatype outcome = Resolve | Reject error

text \<open>The argument \<open>e\<close> of a task handler; \<open>inst\<close> is its field \<open>instance\<close>.\<close>

record task_arg =
  inst :: "worker option"
  taskId :: int
  workerIndex :: int

datatype event =
    Emit string payload         \<comment> \<open>\<open>this.emit(name, ...)\<close>\<close>
  | Tasks tasks_call            \<comment> \<open>a call on \<open>this.tasks\<close>\<close>
  | Invoke capability worker    \<comment> \<open>a capability of a Strategy instance is called\<close>
  | Operation task_arg          \<comment> \<open>the scheduler calls the handler given to \<open>handle\<close>\<close>
  | Await                       \<comment> \<open>the method suspends at an \<open>await\<close>\<close>
  | Settle nat outcome          \<comment> \<open>the \<open>k\<close>-th promise under \<open>Promise.all\<close> settles\<close>

subsection \<open>Awaiting several promises\<close>

text \<open>
  \<open>await Promise.all(ps)\<close> for \<open>n\<close> promises. The schedule lists, in the order of time,
  which promise settles and how; a promise that is not listed never settles. The
  result is fulfilled once all \<open>n\<close> are fulfilled, rejected at the first rejection,
  and pending otherwise. \<open>fs\<close> holds the promises fulfilled so far.
\<close>

fun promise_all :: "nat \<Rightarrow> nat list \<Rightarrow> (nat \<times> outcome) list \<Rightarrow> event list \<times> unit promise" where
  "promise_all n fs [] = ([], if length fs = n then Fulfilled () else Pending)"
| "promise_all n fs ((k, out) # rest) =
     (if length fs = n then ([], Fulfilled ())
      else if n \<le> k \<or> k \<in> set fs then promise_all n fs rest
      else (case out of
              Resolve \<Rightarrow>
                (let (evs, r) = promise_all n (k # fs) rest in (Settle k Resolve # evs, r))
            | Reject e \<Rightarrow> ([Settle k (Reject e)], Rejected e)))"

definition await_all :: "nat \<Rightarrow> (nat \<times> outcome) list \<Rightarrow> event list \<times> unit promise" where
  "await_all n sched = (let (evs, r) = promise_all n [] sched in (Await # evs, r))"

text \<open>
  \<open>xs.map((r) => r.cap())\<close> over a list whose elements may be \<open>undefined\<close>: the calls
  are made in order, and the first \<open>undefined\<close> element raises a TypeError.
\<close>

fun invoke_each :: "capability \<Rightarrow> worker option list \<Rightarrow> event list \<times> error option" where
  "invoke_each cap [] = ([], None)"
| "invoke_each cap (None # rs) = ([], Some TypeError)"
| "invoke_each cap (Some r # rs) =
     (let (evs, e) = invoke_each cap rs in (Invoke cap r # evs, e))"

subsection \<open>Creating the pool\<close>

text \<open>
  \<open>this.strategies\<close> is a plain object, so \<open>this.strategies[protocol]\<close> finds the
  registered strategies and, for a name that is not registered, the members that every
  object inherits.
\<close>

definition object_prototype_keys :: "string list" where
  "object_prototype_keys =
     [''constructor'', ''__proto__'', ''hasOwnProperty'', ''isPrototypeOf'',
      ''propertyIsEnumerable'', ''toLocaleString'', ''toString'', ''valueOf'',
      ''__defineGetter__'', ''__defineSetter__'', ''__lookupGetter__'', ''__lookupSetter__'']"

datatype strategy_slot = Class strategy_class | Inherited string

definition strategies_lookup :: "(string \<times> strategy_class) list \<Rightarrow> string \<Rightarrow> strategy_slot option" where
  "strategies_lookup reg p =
     (case map_of reg p of
        Some s \<Rightarrow> Some (Class s)
      | None \<Rightarrow> if p \<in> set object_prototype_keys then Some (Inherited p) else None)"

text \<open>
  What \<open>new strategy(...)\<close> gives: an instance of a registered class; for the inherited
  \<open>constructor\<close> (that is \<open>Object\<close>) its first argument, the config object. Any other
  inherited member is not a constructor.
\<close>

datatype created = Instance worker | ConfigObject

definition createWorker :: "client \<Rightarrow> error + created" where
  "createWorker c =
     (case config c of
        None \<Rightarrow> Inl TypeError
      | Some cfg \<Rightarrow>
          (case strategies_lookup (strategies c) (protocol cfg) of
             None \<Rightarrow> Inl (Error (''Strategy for protocol '' @ protocol cfg @ '' not found.''))
           | Some (Class s) \<Rightarrow> Inr (Instance (Strategy s cfg (connectionOptions c)))
           | Some (Inherited k) \<Rightarrow>
               if k = ''constructor'' then Inr ConfigObject else Inl TypeError))"

text \<open>
  \<open>handleWorkerEvents\<close> subscribes the client to the instance through \<open>instance.on\<close>,
  which a config object does not have. The subscriptions themselves are not part of
  the state below; \<open>clearWorkerEvents\<close> only removes them.
\<close>

definition handleWorkerEvents :: "created \<Rightarrow> error + worker" where
  "handleWorkerEvents x = (case x of Instance w \<Rightarrow> Inr w | ConfigObject \<Rightarrow> Inl TypeError)"

text \<open>The loop \<open>for (let i = 0; i < pool; i++)\<close> of \<open>setWorkers\<close>; a throw leaves the loop.\<close>

function createWorkers :: "int \<Rightarrow> int \<Rightarrow> client \<Rightarrow> client \<times> error option" where
  "createWorkers i p c =
     (if i < p then
        (case createWorker c of
           Inl e \<Rightarrow> (c, Some e)
         | Inr x \<Rightarrow>
             (case handleWorkerEvents x of
                Inl e \<Rightarrow> (c, Some e)
              | Inr w \<Rightarrow> createWorkers (i + 1) p (c\<lparr>workers := workers c @ [w]\<rparr>)))
      else (c, None))"
  by pat_completeness auto
termination
  by (relation "measure (\<lambda>(i, p, c). nat (p - i))") auto

declare createWorkers.simps [simp del]

definition setWorkers :: "client \<Rightarrow> client \<times> error option" where
  "setWorkers c =
     (let c0 = c\<lparr>workers := []\<rparr>;
          (c1, thrown) = createWorkers 0 (pool (options c0)) c0
      in case thrown of
           Some e \<Rightarrow> (c1, Some e)
         | None \<Rightarrow> (setWorkerGroups c1, None))"

subsection \<open>Connecting and disconnecting\<close>

definition disconnect :: "client \<Rightarrow> (nat \<times> outcome) list \<Rightarrow> event list \<times> unit promise" where
  "disconnect c sched =
     (let (evs, r) = await_all (length (workers c)) sched
      in (map (Invoke Disconnect) (workers c) @ evs, r))"

text \<open>
  \<open>connect(config?, options?)\<close>; the two schedules say how the \<open>disconnect()\<close> and the
  \<open>connect()\<close> promises of the workers settle. The result is the client afterwards,
  the trace and the promise \<open>connect\<close> returned.
\<close>

definition connect ::
  "client \<Rightarrow> config option \<Rightarrow> conn_options option \<Rightarrow> (nat \<times> outcome) list \<Rightarrow>
   (nat \<times> outcome) list \<Rightarrow> client \<times> event list \<times> unit promise" where
  "connect c cfg opts sched_d sched_c =
     (if config c = None \<and> cfg = None
      then (c, [], Rejected (Error ''Config must be provided!''))
      else
        (let (tr1, r1) = disconnect c sched_d in
         case r1 of
           Rejected e \<Rightarrow> (c, tr1, Rejected e)
         | Pending \<Rightarrow> (c, tr1, Pending)
         | Fulfilled _ \<Rightarrow>
             (let c1 = c\<lparr>config := (case cfg of Some x \<Rightarrow> Some x | None \<Rightarrow> config c),
                         connectionOptions :=
                           (case opts of Some x \<Rightarrow> Some x | None \<Rightarrow> connectionOptions c)\<rparr>;
                  (c2, thrown) = setWorkers c1
              in case thrown of
                   Some e \<Rightarrow> (c2, tr1, Rejected e)
                 | None \<Rightarrow>
                     (let (evs, r2) = await_all (length (workers c2)) sched_c
                      in (c2, tr1 @ map (Invoke Connect) (workers c2) @ evs, r2)))))"

subsection \<open>Aborting\<close>

definition abort :: "client \<Rightarrow> (nat \<times> outcome) list \<Rightarrow> client \<times> event list \<times> unit promise" where
  "abort c sched =
     (let (evs, r) = await_all (length (workers c)) sched
      in (c\<lparr>tasks := tasks_deleteAllTasks (tasks c)\<rparr>,
          [Emit ''transfer-abort'' (Ids (Map_keys (transfers c))), Tasks DeleteAllTasks]
            @ map (Invoke Abort) (workers c) @ evs,
          r))"

text \<open>\<open>this.workers[index]\<close>: \<open>undefined\<close>, here \<open>None\<close>, outside the array.\<close>

definition getWorkerInstance :: "client \<Rightarrow> int \<Rightarrow> worker option" where
  "getWorkerInstance c i =
     (if 0 \<le> i \<and> i < int (length (workers c)) then Some (workers c ! nat i) else None)"

text \<open>
  The \<open>forEach\<close> of \<open>abortTransfer\<close> builds two arrays: \<open>workerIndexes\<close> gets what the
  registry has for every id, \<open>instances\<close> gets \<open>this.workers[workerIndex]\<close> for the ids
  whose value passes \<open>workerIndex != null\<close>.
\<close>

definition workerIndexes_of :: "client \<Rightarrow> int list \<Rightarrow> worker_index option list" where
  "workerIndexes_of c ids = map (Map_get (transfers c)) ids"

fun instances_of :: "client \<Rightarrow> worker_index option list \<Rightarrow> worker option list" where
  "instances_of c [] = []"
| "instances_of c (Some (Assigned i) # xs) = getWorkerInstance c i # instances_of c xs"
| "instances_of c (_ # xs) = instances_of c xs"

definition abortTransfer ::
  "client \<Rightarrow> int list \<Rightarrow> (nat \<times> outcome) list \<Rightarrow> client \<times> event list \<times> unit promise" where
  "abortTransfer c transferIds sched =
     (let workerIndexes = workerIndexes_of c transferIds;
          instances = instances_of c workerIndexes;
          c1 = c\<lparr>tasks := tasks_deleteTasks transferIds (tasks c)\<rparr>;
          pre = map (\<lambda>i. Emit ''transfer-abort'' (Ids [i])) transferIds
                  @ [Tasks (DeleteTasks transferIds), Tasks (PauseWorkers workerIndexes)];
          (calls, thrown) = invoke_each Abort instances
      in case thrown of
           Some e \<Rightarrow> (c1, pre @ calls, Rejected e)
         | None \<Rightarrow>
             (let (evs, r) = await_all (length instances) sched
              in case r of
                   Fulfilled _ \<Rightarrow>
                     (c1, pre @ calls @ evs @ [Tasks (ResumeWorkers workerIndexes)], Fulfilled ())
                 | Rejected e \<Rightarrow> (c1, pre @ calls @ evs, Rejected e)
                 | Pending \<Rightarrow> (c1, pre @ calls @ evs, Pending)))"

subsection \<open>Transfers\<close>

text \<open>
  Modelled from the spec: \<open>TasksManager.handle(fn, group, id)\<close> is not at hand. The spec
  has three fates for the task: it stays queued for ever; it is cancelled while
  pending, and its promise is rejected without the handler ever being called; or it
  is dispatched to a connection, the handler is called with that connection and its
  index, and the promise settles as the handler's promise does, with no retry.
\<close>

datatype dispatch = NotDispatched | Cancelled error | Dispatched int

type_synonym registry = "(int \<times> worker_index) list"

text \<open>
  \<open>handleTransfer(fn, direction)\<close>. Every event of its trace comes with the registry as
  it is when the event happens. \<open>fn\<close> is the handler; it gives its own events and the
  promise it returns.
\<close>

definition handleTransfer ::
  "client \<Rightarrow> (task_arg \<Rightarrow> event list \<times> unit promise) \<Rightarrow> direction \<Rightarrow> dispatch \<Rightarrow>
   client \<times> (event \<times> registry) list \<times> unit promise" where
  "handleTransfer c fn dir d =
     (let (tid, t1) = tasks_createTaskId (tasks c);
          tr = \<lparr>remotePath = remotePath dir, localPath = localPath dir, transfer_id = tid\<rparr>;
          reg0 = Map_set tid Unassigned (transfers c);
          c0 = c\<lparr>tasks := t1, transfers := reg0\<rparr>;
          start = [(Emit ''transfer-new'' (Info tr), reg0),
                   (Tasks (Handle (Some ''transfer-transfer'') (Some tid)), reg0),
                   (Await, reg0)]
      in case d of
           NotDispatched \<Rightarrow> (c0, start, Pending)
         | Cancelled e \<Rightarrow>
             (let reg2 = Map_delete tid reg0
              in (c0\<lparr>transfers := reg2\<rparr>,
                  start @ [(Emit ''transfer-finish'' (Info tr), reg2)],
                  Rejected e))
         | Dispatched w \<Rightarrow>
             (let reg1 = Map_set tid (Assigned w) reg0;
                  e = \<lparr>inst = getWorkerInstance c w, taskId = tid, workerIndex = w\<rparr>;
                  (evs, r) = fn e;
                  body = (Operation e, reg1) # map (\<lambda>ev. (ev, reg1)) evs;
                  reg2 = Map_delete tid reg1
              in case r of
                   Pending \<Rightarrow> (c0\<lparr>transfers := reg1\<rparr>, start @ body, Pending)
                 | Fulfilled _ \<Rightarrow>
                     (c0\<lparr>transfers := reg2\<rparr>,
                      start @ body @ [(Emit ''transfer-finish'' (Info tr), reg2)],
                      Fulfilled ())
                 | Rejected err \<Rightarrow>
                     (c0\<lparr>transfers := reg2\<rparr>,
                      start @ body @ [(Emit ''transfer-finish'' (Info tr), reg2)],
                      Rejected err)))"


definition upload_op ::
  "string \<Rightarrow> string \<Rightarrow> int promise \<Rightarrow> unit promise \<Rightarrow> task_arg \<Rightarrow>
   event list \<times> unit promise" where
  "upload_op remote local sz xf e =
     (case inst e of
        None \<Rightarrow> ([], Rejected TypeError)
      | Some i \<Rightarrow>
          (case sz of
             Pending \<Rightarrow> ([Invoke (Size remote) i, Await], Pending)
           | Rejected err \<Rightarrow> ([Invoke (Size remote) i, Await], Rejected err)
           | Fulfilled n \<Rightarrow>
               ([Invoke (Size remote) i, Await,
                 Invoke (Upload \<lparr>remotePath = remote, localPath = local,
                                  transfer_id = taskId e, startAt = None,
                                  totalBytes = n\<rparr>) i,
                 Await], xf)))"

text \<open>
  \<open>download(dest, remotePath, startAt)\<close> and \<open>upload(source, remotePath)\<close>. The local end
  is a path or a stream; for a stream the path is what \<open>getPathFromStream\<close> (of
  \<open>./utils/file\<close>, not at hand) reports. Opening the local file is outside the model.
\<close>

datatype local_end = LocalPath string | LocalStream string

definition local_path_of :: "local_end \<Rightarrow> string" where
  "local_path_of l = (case l of LocalPath p \<Rightarrow> p | LocalStream p \<Rightarrow> p)"


definition upload ::
  "client \<Rightarrow> local_end \<Rightarrow> string \<Rightarrow> int promise \<Rightarrow> unit promise \<Rightarrow> dispatch \<Rightarrow>
   client \<times> (event \<times> registry) list \<times> unit promise" where
  "upload c source remote sz xf d =
     handleTransfer c (upload_op remote (local_path_of source) sz xf)
       \<lparr>remotePath = remote, localPath = local_path_of source\<rparr> d"

subsection \<open>Reading a trace\<close>

text \<open>The instances whose \<open>abort()\<close> a trace calls, in the order of the calls.\<close>

fun aborts :: "event list \<Rightarrow> worker list" where
  "aborts [] = []"
| "aborts (Invoke Abort w # es) = w # aborts es"
| "aborts (_ # es) = aborts es"

subsection \<open>A client in use\<close>

text \<open>
  A client with a pool of two and no transfer pool, connected over FTP: both workers
  are labelled \<open>all\<close>. Transfer 5 runs on worker 1, transfer 6 waits for a connection,
  and the next task id is 7.
\<close>

definition example_config :: config where
  "example_config = \<lparr>protocol = ''ftp'', host = ''example.org''\<rparr>"

definition example_worker :: worker where
  "example_worker = Strategy FtpStrategy example_config None"

definition example_client :: client where
  "example_client =
     \<lparr>config = Some example_config, connectionOptions = None,
      options = \<lparr>pool = 2, transferPool = False\<rparr>,
      workers = [example_worker, example_worker],
      tasks = \<lparr>taskWorkers = [\<lparr>wgroup = ''all''\<rparr>, \<lparr>wgroup = ''all''\<rparr>],
               taskCounter = 7, pendingTasks = [6], runningTasks = [5]\<rparr>,
      transfers = [(5, Assigned 1), (6, Unassigned)],
      strategies = [(''ftp'', FtpStrategy), (''ftps'', FtpStrategy), (''sftp'', SftpStrategy)]\<rparr>"

section \<open>Theorems\<close>

subsection \<open>Group labels\<close>

text \<open>
  C1. For every pool size \<open>p \<ge> 1\<close> and transfer-pool flag, \<open>setWorkerGroups\<close> labels
  exactly \<open>p\<close> workers: every one \<open>all\<close> when the flag is off or \<open>p = 1\<close>; otherwise the
  first \<open>misc\<close> and the other \<open>p - 1\<close> \<open>transfer\<close>.
\<close>

theorem setWorkerGroups_labels:
  assumes "1 \<le> pool (options c)"
    and "gs = map wgroup (taskWorkers (tasks (setWorkerGroups c)))"
  shows "length gs = nat (pool (options c)) \<and>
         (\<not> transferPool (options c) \<or> pool (options c) = 1 \<longrightarrow>
            (\<forall>i < length gs. gs ! i = ''all'')) \<and>
         (transferPool (options c) \<and> pool (options c) \<noteq> 1 \<longrightarrow>
            gs ! 0 = ''misc'' \<and> (\<forall>i. 1 \<le> i \<and> i < length gs \<longrightarrow> gs ! i = ''transfer'') \<and>
            length (filter (\<lambda>g. g = ''transfer'') gs) = nat (pool (options c) - 1))"
proof -
  let ?p = "pool (options c)"
  show ?thesis
  proof (cases "\<not> transferPool (options c) \<or> ?p = 1")
    case True
    then have "gs = replicate (nat ?p) ''all''"
      using assms(2) by (auto simp: setWorkerGroups_def tasks_setWorkers_def repeat_def Let_def o_def)
    with True show ?thesis by auto
  next
    case False
    then have gs: "gs = ''misc'' # replicate (nat (?p - 1)) ''transfer''"
      using assms(2) by (auto simp: setWorkerGroups_def tasks_setWorkers_def repeat_def Let_def o_def)
    have len: "length gs = nat ?p"
      using assms(1) gs by simp
    have rest: "\<forall>i. 1 \<le> i \<and> i < length gs \<longrightarrow> gs ! i = ''transfer''"
      using gs by (auto simp: nth_Cons')
    have cnt: "length (filter (\<lambda>g. g = ''transfer'') gs) = nat (?p - 1)"
      using gs by simp
    from False gs len rest cnt show ?thesis by simp
  qed
qed

theorem setWorkerGroups_labels_witness:
  "1 \<le> pool (options (new_Client (Some 3) True)) \<and>
   length (map wgroup (taskWorkers (tasks (setWorkerGroups (new_Client (Some 3) True))))) = 3 \<and>
   map wgroup (taskWorkers (tasks (setWorkerGroups (new_Client (Some 3) True)))) ! 0 = ''misc'' \<and>
   map wgroup (taskWorkers (tasks (setWorkerGroups (new_Client (Some 3) True)))) ! 1 = ''transfer'' \<and>
   map wgroup (taskWorkers (tasks (setWorkerGroups (new_Client (Some 3) True)))) ! 2 = ''transfer'' \<and>
   length (filter (\<lambda>g. g = ''transfer'')
     (map wgroup (taskWorkers (tasks (setWorkerGroups (new_Client (Some 3) True)))))) = 2"
proof -
  let ?c = "new_Client (Some 3) True"
  let ?gs = "map wgroup (taskWorkers (tasks (setWorkerGroups ?c)))"
  have h: "1 \<le> pool (options ?c)" and p: "pool (options ?c) = 3"
    and t: "transferPool (options ?c)"
    by (simp_all add: new_Client_def)
  from setWorkerGroups_labels [OF h refl] p t
  have "length ?gs = 3 \<and> ?gs ! 0 = ''misc'' \<and>
        (\<forall>i. 1 \<le> i \<and> i < length ?gs \<longrightarrow> ?gs ! i = ''transfer'') \<and>
        length (filter (\<lambda>g. g = ''transfer'') ?gs) = 2"
    by simp
  then have "length ?gs = 3 \<and> ?gs ! 0 = ''misc'' \<and> ?gs ! 1 = ''transfer'' \<and>
        ?gs ! 2 = ''transfer'' \<and> length (filter (\<lambda>g. g = ''transfer'') ?gs) = 2"
    by auto
  with h show ?thesis by blast
qed

subsection \<open>The eligibility filter\<close>

text \<open>
  C2. For every worker and every requested group (\<open>all\<close>, \<open>misc\<close>, \<open>transfer\<close> or any
  other non-empty label, or none), \<open>workerFilter\<close> accepts the worker if and only if its
  label is \<open>all\<close>, or no group is requested and its label is \<open>misc\<close>, or its label is
  the requested group; a requested \<open>transfer\<close> or \<open>misc\<close> matches that label or \<open>all\<close>
  only. The group type has no empty label, which is the one string JavaScript takes
  for absent.
\<close>

theorem workerFilter_iff:
  assumes "g \<noteq> Some []"
  shows "(workerFilter w g \<longleftrightarrow>
            wgroup w = ''all'' \<or> (g = None \<and> wgroup w = ''misc'') \<or> g = Some (wgroup w)) \<and>
         (workerFilter w (Some ''transfer'') \<longleftrightarrow> wgroup w = ''transfer'' \<or> wgroup w = ''all'') \<and>
         (workerFilter w (Some ''misc'') \<longleftrightarrow> wgroup w = ''misc'' \<or> wgroup w = ''all'')"
  using assms by (auto simp: workerFilter_def falsy_def)

theorem workerFilter_iff_witness:
  "workerFilter \<lparr>wgroup = ''misc''\<rparr> None \<and>
   \<not> workerFilter \<lparr>wgroup = ''misc''\<rparr> (Some ''transfer'') \<and>
   workerFilter \<lparr>wgroup = ''all''\<rparr> (Some ''transfer'') \<and>
   \<not> workerFilter \<lparr>wgroup = ''transfer''\<rparr> None"
proof -
  have n: "(None :: string option) \<noteq> Some []" by simp
  have t: "Some ''transfer'' \<noteq> Some []" by simp
  show ?thesis
    using workerFilter_iff [OF n, of "\<lparr>wgroup = ''misc''\<rparr>"]
      workerFilter_iff [OF n, of "\<lparr>wgroup = ''transfer''\<rparr>"]
      workerFilter_iff [OF t, of "\<lparr>wgroup = ''all''\<rparr>"]
      workerFilter_iff [OF t, of "\<lparr>wgroup = ''misc''\<rparr>"]
    by simp
qed

text \<open>
  The group that \<open>handleTransfer\<close> asks for is \<open>transfer-transfer\<close>; the filter gives
  such a task to the workers labelled \<open>all\<close>, and to no worker labelled \<open>misc\<close> or
  \<open>transfer\<close>.
\<close>

lemma workerFilter_transfer_group:
  "workerFilter w (Some ''transfer-transfer'') \<longleftrightarrow>
     wgroup w = ''all'' \<or> wgroup w = ''transfer-transfer''"
  by (auto simp: workerFilter_def falsy_def)

subsection \<open>Facts about traces, promises and the registry\<close>

text \<open>
  \<open>Promise.all\<close> only reports settlements, and when it is fulfilled every one of its
  promises has been fulfilled before.
\<close>

lemma promise_all_settles:
  "promise_all n fs s = (evs, r) \<Longrightarrow> ev \<in> set evs \<Longrightarrow> \<exists>k out. ev = Settle k out"
  by (induction n fs s arbitrary: evs r rule: promise_all.induct)
     (auto split: if_splits outcome.splits prod.splits)

lemma promise_all_fulfilled:
  "promise_all n fs s = (evs, Fulfilled ()) \<Longrightarrow> distinct fs \<Longrightarrow> set fs \<subseteq> {..<n} \<Longrightarrow>
   k < n \<Longrightarrow> k \<in> set fs \<or> Settle k Resolve \<in> set evs"
proof (induction n fs s arbitrary: evs rule: promise_all.induct)
  case (1 n fs)
  then have "length fs = n" by (auto split: if_splits)
  with 1 have "card (set fs) = card {..<n}" by (simp add: distinct_card)
  with 1 have "set fs = {..<n}" by (simp add: card_subset_eq)
  with 1 show ?case by auto
next
  case (2 n fs k' out rest)
  show ?case
  proof (cases "length fs = n")
    case True
    with 2 have "card (set fs) = card {..<n}" by (simp add: distinct_card)
    with 2 have "set fs = {..<n}" by (simp add: card_subset_eq)
    with 2 show ?thesis by auto
  next
    case False
    then show ?thesis
      using 2 by (auto split: if_splits outcome.splits prod.splits)
  qed
qed

lemma promise_all_zero: "promise_all 0 [] s = ([], Fulfilled ())"
  by (cases s) auto

text \<open>
  The calls of \<open>invoke_each\<close> are made on the defined elements up to the first
  \<open>undefined\<close> one.
\<close>

lemma invoke_each_calls:
  "invoke_each cap xs = (evs, e) \<Longrightarrow>
   \<exists>ws. evs = map (Invoke cap) ws \<and>
        (case e of None \<Rightarrow> xs = map Some ws
         | Some err \<Rightarrow> err = TypeError \<and> (\<exists>rest. xs = map Some ws @ None # rest))"
proof (induction cap xs arbitrary: evs e rule: invoke_each.induct)
  case (1 cap)
  then show ?case by auto
next
  case (2 cap rs)
  then show ?case by auto
next
  case (3 cap r rs)
  obtain evs' e' where r: "invoke_each cap rs = (evs', e')" by (cases "invoke_each cap rs")
  from 3(1)[OF r] obtain ws where ws: "evs' = map (Invoke cap) ws"
      "case e' of None \<Rightarrow> rs = map Some ws
         | Some err \<Rightarrow> err = TypeError \<and> (\<exists>rest. rs = map Some ws @ None # rest)" by blast
  from 3(2) r have "evs = Invoke cap r # evs'" "e = e'" by auto
  with ws show ?case by (intro exI[of _ "r # ws"]) (auto split: option.splits)
qed

lemma aborts_append: "aborts (xs @ ys) = aborts xs @ aborts ys"
  by (induction xs rule: aborts.induct) auto

lemma aborts_invokes: "aborts (map (Invoke Abort) ws) = ws"
  by (induction ws) auto

lemma aborts_none:
  "(\<forall>ev\<in>set xs. \<forall>w. ev \<noteq> Invoke Abort w) \<Longrightarrow> aborts xs = []"
  by (induction xs rule: aborts.induct) auto

lemma instances_of_assigned:
  "x \<in> set (instances_of c wis) \<Longrightarrow> \<exists>n. Some (Assigned n) \<in> set wis \<and> x = getWorkerInstance c n"
  by (induction c wis rule: instances_of.induct) auto

lemma instances_of_unassigned:
  "(\<forall>x\<in>set wis. x = None \<or> x = Some Unassigned) \<Longrightarrow> instances_of c wis = []"
  by (induction c wis rule: instances_of.induct) auto

lemma instances_of_complete:
  "Some (Assigned n) \<in> set wis \<Longrightarrow> getWorkerInstance c n \<in> set (instances_of c wis)"
  by (induction c wis rule: instances_of.induct) auto

lemma instances_of_append:
  "instances_of c (xs @ ys) = instances_of c xs @ instances_of c ys"
  by (induction c xs rule: instances_of.induct) auto

lemma instances_of_without:
  assumes "k < length wis" and "wis ! k = None \<or> wis ! k = Some Unassigned"
  shows "instances_of c (take k wis @ drop (Suc k) wis) = instances_of c wis"
proof -
  have "wis = take k wis @ wis ! k # drop (Suc k) wis"
    using assms(1) by (rule id_take_nth_drop)
  then have "instances_of c wis = instances_of c (take k wis) @ instances_of c (wis ! k # drop (Suc k) wis)"
    by (metis instances_of_append)
  also have "instances_of c (wis ! k # drop (Suc k) wis) = instances_of c (drop (Suc k) wis)"
    using assms(2) by auto
  finally show ?thesis by (simp add: instances_of_append)
qed

lemma Map_get_set: "Map_get (Map_set k v m) k' = (if k' = k then Some v else Map_get m k')"
  by (simp add: Map_get_def Map_set_def update_conv')

lemma Map_get_delete: "Map_get (Map_delete k m) k' = (if k' = k then None else Map_get m k')"
  by (simp add: Map_get_def Map_delete_def delete_conv')

lemma createWorkers_done: "\<not> i < p \<Longrightarrow> createWorkers i p c = (c, None)"
  by (subst createWorkers.simps) simp

lemma createWorkers_throws:
  "i < p \<Longrightarrow> createWorker c = Inl e \<Longrightarrow> createWorkers i p c = (c, Some e)"
  by (subst createWorkers.simps) simp

subsection \<open>The transfer registry\<close>



text \<open>
  No other method writes the registry, and a transfer leaves the entries of the other
  identities as they are.
\<close>

lemma createWorkers_transfers:
  "createWorkers i p c = (c', e) \<Longrightarrow> transfers c' = transfers c"
proof (induction i p c arbitrary: c' e rule: createWorkers.induct)
  case (1 i p c)
  from "1.prems" show ?case
    by (subst (asm) createWorkers.simps)
       (auto split: if_splits sum.splits dest: "1.IH")
qed

lemma setWorkers_transfers: "transfers (fst (setWorkers c)) = transfers c"
proof -
  obtain c1 e where cw: "createWorkers 0 (pool (options c)) (c\<lparr>workers := []\<rparr>) = (c1, e)"
    by (cases "createWorkers 0 (pool (options c)) (c\<lparr>workers := []\<rparr>)")
  from createWorkers_transfers[OF cw] have "transfers c1 = transfers c" by simp
  with cw show ?thesis
    by (simp add: setWorkers_def Let_def setWorkerGroups_def split: option.splits)
qed

lemma abort_keeps_registry: "transfers (fst (abort c s)) = transfers c"
  by (simp add: abort_def Let_def split: prod.splits)

lemma abortTransfer_keeps_registry: "transfers (fst (abortTransfer c ids s)) = transfers c"
  by (simp add: abortTransfer_def Let_def split: prod.splits option.splits promise.splits)

lemma connect_keeps_registry: "transfers (fst (connect c cfg opts sd sc)) = transfers c"
proof -
  let ?c1 = "c\<lparr>config := (case cfg of Some x \<Rightarrow> Some x | None \<Rightarrow> config c),
                         connectionOptions :=
                           (case opts of Some x \<Rightarrow> Some x | None \<Rightarrow> connectionOptions c)\<rparr>"
  have "transfers (fst (setWorkers ?c1)) = transfers c"
    using setWorkers_transfers[of ?c1] by simp
  then show ?thesis
    by (auto simp: connect_def Let_def split: prod.splits option.splits promise.splits)
qed

lemma handleTransfer_other_entries:
  assumes "handleTransfer c fn dir d = (c', tr, r)"
    and "k \<noteq> fst (tasks_createTaskId (tasks c))"
  shows "Map_get (transfers c') k = Map_get (transfers c) k \<and>
         (\<forall>x\<in>set tr. Map_get (snd x) k = Map_get (transfers c) k)"
  using assms
  by (auto simp: handleTransfer_def Let_def Map_get_set Map_get_delete
      split: prod.splits dispatch.splits promise.splits)

text \<open>
  C6. For every download or upload whose operation settles, the promise of
  \<open>handleTransfer\<close> settles in the same way: a failure of the operation is the rejection
  of that promise, with the same error, and the operation is called once, after one
  call of \<open>handle\<close>. A task cancelled before it ran rejects the promise as well. On the
  success path and on each failure path the entry of the transfer is removed from the
  registry and \<open>transfer-finish\<close> is the last event.
\<close>

theorem handleTransfer_settlement:
  assumes "handleTransfer c fn dir d = (c', tr, r)"
    and "tid = fst (tasks_createTaskId (tasks c))"
    and "info = \<lparr>remotePath = remotePath dir, localPath = localPath dir, transfer_id = tid\<rparr>"
  shows "(\<forall>w e. d = Dispatched w \<and> e = \<lparr>inst = getWorkerInstance c w, taskId = tid, workerIndex = w\<rparr> \<and>
                snd (fn e) \<noteq> Pending \<longrightarrow>
            r = snd (fn e) \<and>
            map fst tr = [Emit ''transfer-new'' (Info info),
                          Tasks (Handle (Some ''transfer-transfer'') (Some tid)), Await, Operation e]
                         @ fst (fn e) @ [Emit ''transfer-finish'' (Info info)]) \<and>
         (\<forall>err. d = Cancelled err \<longrightarrow>
            r = Rejected err \<and>
            map fst tr = [Emit ''transfer-new'' (Info info),
                          Tasks (Handle (Some ''transfer-transfer'') (Some tid)), Await,
                          Emit ''transfer-finish'' (Info info)]) \<and>
         (r \<noteq> Pending \<longrightarrow>
            Map_get (transfers c') tid = None \<and>
            last tr = (Emit ''transfer-finish'' (Info info), transfers c'))"
proof (cases d)
  case NotDispatched
  with assms show ?thesis
    by (auto simp: handleTransfer_def Let_def split: prod.splits)
next
  case (Cancelled e)
  with assms show ?thesis
    by (auto simp: handleTransfer_def Let_def Map_get_delete split: prod.splits)
next
  case (Dispatched w)
  let ?e = "\<lparr>inst = getWorkerInstance c w, taskId = tid, workerIndex = w\<rparr>"
  obtain evs p where fn: "fn ?e = (evs, p)" by (cases "fn ?e")
  show ?thesis
  proof (cases p)
    case (Fulfilled u)
    with assms Dispatched fn show ?thesis
      by (auto simp: handleTransfer_def Let_def Map_get_delete o_def split: prod.splits)
  next
    case (Rejected err)
    with assms Dispatched fn show ?thesis
      by (auto simp: handleTransfer_def Let_def Map_get_delete o_def split: prod.splits)
  next
    case Pending
    with assms Dispatched fn show ?thesis
      by (auto simp: handleTransfer_def Let_def split: prod.splits)
  qed
qed

theorem handleTransfer_settlement_witness:
  "snd (snd (upload example_client (LocalStream ''b.bin'') ''/r/b.bin''
               (Rejected (Reason 2)) (Fulfilled ()) (Dispatched 0))) = Rejected (Reason 2) \<and>
   Map_get (transfers (fst (upload example_client (LocalStream ''b.bin'') ''/r/b.bin''
               (Rejected (Reason 2)) (Fulfilled ()) (Dispatched 0)))) 7 = None \<and>
   fst (last (fst (snd (upload example_client (LocalStream ''b.bin'') ''/r/b.bin''
               (Rejected (Reason 2)) (Fulfilled ()) (Dispatched 0))))) =
     Emit ''transfer-finish''
       (Info \<lparr>remotePath = ''/r/b.bin'', localPath = ''b.bin'', transfer_id = 7\<rparr>)"
proof -
  let ?fn = "upload_op ''/r/b.bin'' ''b.bin'' (Rejected (Reason 2)) (Fulfilled ())"
  let ?dir = "\<lparr>remotePath = ''/r/b.bin'', localPath = ''b.bin''\<rparr>"
  let ?X = "handleTransfer example_client ?fn ?dir (Dispatched 0)"
  let ?e = "\<lparr>inst = getWorkerInstance example_client 0, taskId = 7, workerIndex = 0\<rparr>"
  have ul: "upload example_client (LocalStream ''b.bin'') ''/r/b.bin''
               (Rejected (Reason 2)) (Fulfilled ()) (Dispatched 0) = ?X"
    by (simp add: upload_def local_path_of_def)
  have run: "?X = (fst ?X, fst (snd ?X), snd (snd ?X))" by simp
  have t: "7 = fst (tasks_createTaskId (tasks example_client))"
    by (simp add: tasks_createTaskId_def example_client_def)
  have f: "snd (?fn ?e) = Rejected (Reason 2)"
    by (simp add: upload_op_def getWorkerInstance_def example_client_def)
  from handleTransfer_settlement [OF run t refl] f
  show ?thesis unfolding ul by auto
qed

subsection \<open>Aborting\<close>

text \<open>
  Every trace of \<open>abortTransfer\<close>: the notifications, \<open>deleteTasks\<close>, \<open>pauseWorkers\<close>,
  the \<open>abort()\<close> calls, and then either nothing (an instance was \<open>undefined\<close>) or the
  wait for the aborts, with \<open>resumeWorkers\<close> at the end if all of them were fulfilled.
\<close>

lemma abortTransfer_shape:
  assumes "abortTransfer c ids sched = (c', tr, r)"
  shows "\<exists>ws rest. tr = map (\<lambda>i. Emit ''transfer-abort'' (Ids [i])) ids
              @ [Tasks (DeleteTasks ids), Tasks (PauseWorkers (workerIndexes_of c ids))]
              @ map (Invoke Abort) ws @ rest
          \<and> prefix (map Some ws) (instances_of c (workerIndexes_of c ids))
          \<and> (rest = [] \<and> r = Rejected TypeError
             \<or> (\<exists>setts. map Some ws = instances_of c (workerIndexes_of c ids)
                  \<and> promise_all (length ws) [] sched = (setts, r)
                  \<and> rest = Await # setts @ (if r = Fulfilled () then [Tasks (ResumeWorkers (workerIndexes_of c ids))] else [])))"
proof -
  let ?wis = "workerIndexes_of c ids"
  let ?ins = "instances_of c ?wis"
  obtain calls thrown where ie: "invoke_each Abort ?ins = (calls, thrown)"
    by (cases "invoke_each Abort ?ins")
  from invoke_each_calls[OF ie] obtain ws where ws: "calls = map (Invoke Abort) ws"
    "case thrown of None \<Rightarrow> ?ins = map Some ws
         | Some err \<Rightarrow> err = TypeError \<and> (\<exists>rest. ?ins = map Some ws @ None # rest)" by blast
  show ?thesis
  proof (cases thrown)
    case None
    obtain setts r' where pa: "promise_all (length ?ins) [] sched = (setts, r')"
      by (cases "promise_all (length ?ins) [] sched")
    from None ws have eq: "map Some ws = ?ins" by simp
    then have len: "length ?ins = length ws" by (metis length_map)
    from assms ie None pa ws(1) have
      "tr = map (\<lambda>i. Emit ''transfer-abort'' (Ids [i])) ids
              @ [Tasks (DeleteTasks ids), Tasks (PauseWorkers ?wis)]
              @ map (Invoke Abort) ws @ (Await # setts @ (if r = Fulfilled () then [Tasks (ResumeWorkers ?wis)] else []))" and "r = r'"
      by (auto simp: abortTransfer_def Let_def await_all_def split: promise.splits)
    with eq pa len show ?thesis
      by (intro exI[of _ ws] exI[of _ "Await # setts @ (if r = Fulfilled () then [Tasks (ResumeWorkers ?wis)] else [])"]) auto
  next
    case (Some e)
    with ws(2) have e: "e = TypeError" and pre: "prefix (map Some ws) ?ins" by auto
    from assms ie Some ws(1) e have
      "tr = map (\<lambda>i. Emit ''transfer-abort'' (Ids [i])) ids
              @ [Tasks (DeleteTasks ids), Tasks (PauseWorkers ?wis)]
              @ map (Invoke Abort) ws @ []" and "r = Rejected TypeError"
      by (auto simp: abortTransfer_def Let_def)
    with pre show ?thesis
      by (intro exI[of _ ws] exI[of _ "[]"]) auto
  qed
qed

lemma abortTransfer_aborts:
  assumes "abortTransfer c ids sched = (c', tr, r)"
  shows "map (Invoke Abort) (aborts tr) = fst (invoke_each Abort (instances_of c (workerIndexes_of c ids)))"
proof -
  let ?ins = "instances_of c (workerIndexes_of c ids)"
  obtain calls thrown where ie: "invoke_each Abort ?ins = (calls, thrown)"
    by (cases "invoke_each Abort ?ins")
  from invoke_each_calls[OF ie] obtain ws where ws: "calls = map (Invoke Abort) ws" by blast
  obtain setts r' where pa: "promise_all (length ?ins) [] sched = (setts, r')"
    by (cases "promise_all (length ?ins) [] sched")
  have s: "\<forall>ev\<in>set setts. \<forall>w. ev \<noteq> Invoke Abort w"
    using pa by (auto dest: promise_all_settles)
  have "aborts tr = ws"
    using assms ie pa ws s
    by (auto simp: abortTransfer_def Let_def await_all_def aborts_append aborts_invokes aborts_none
        split: option.splits promise.splits)
  with ie ws show ?thesis by simp
qed

lemma abortTransfer_example:
  "abortTransfer example_client [5, 6] [(0, Resolve)] =
     (example_client\<lparr>tasks := tasks_deleteTasks [5, 6] (tasks example_client)\<rparr>,
      [Emit ''transfer-abort'' (Ids [5]), Emit ''transfer-abort'' (Ids [6]),
       Tasks (DeleteTasks [5, 6]),
       Tasks (PauseWorkers [Some (Assigned 1), Some Unassigned]),
       Invoke Abort example_worker, Await, Settle 0 Resolve,
       Tasks (ResumeWorkers [Some (Assigned 1), Some Unassigned])],
      Fulfilled ())"
  by (simp add: abortTransfer_def workerIndexes_of_def Map_get_def getWorkerInstance_def
      await_all_def example_client_def Let_def)

lemma abortTransfer_example_unassigned:
  "abortTransfer example_client [6, 99] [] =
     (example_client\<lparr>tasks := tasks_deleteTasks [6, 99] (tasks example_client)\<rparr>,
      [Emit ''transfer-abort'' (Ids [6]), Emit ''transfer-abort'' (Ids [99]),
       Tasks (DeleteTasks [6, 99]),
       Tasks (PauseWorkers [Some Unassigned, None]),
       Await,
       Tasks (ResumeWorkers [Some Unassigned, None])],
      Fulfilled ())"
  by (simp add: abortTransfer_def workerIndexes_of_def Map_get_def getWorkerInstance_def
      await_all_def example_client_def Let_def)

text \<open>
  What holds of every call of \<open>abortTransfer\<close>, in terms of the registry and of the
  worker array. \<open>pauseWorkers\<close> is called, with what the registry has for the given
  identities, before any \<open>abort()\<close> is invoked; every \<open>abort()\<close> is invoked on the worker
  at an index that the registry assigns to one of the identities. When the method is
  fulfilled, \<open>resumeWorkers\<close> is its last step, with the same indices, \<open>abort()\<close> has
  been invoked on the worker of every assigned identity, and every one of these calls
  has been fulfilled before. \<open>resumeWorkers\<close> is called in no other case.
\<close>

lemma abortTransfer_order:
  assumes "abortTransfer c ids sched = (c', tr, r)"
    and "wis = map (map_of (transfers c)) ids"
  shows "\<exists>p<length tr. tr ! p = Tasks (PauseWorkers wis) \<and>
           (\<forall>j<length tr. \<forall>w. tr ! j = Invoke Abort w \<longrightarrow> p < j)"
    and "\<forall>w. Invoke Abort w \<in> set tr \<longrightarrow>
           (\<exists>i\<in>set ids. \<exists>n. map_of (transfers c) i = Some (Assigned n) \<and>
              0 \<le> n \<and> n < int (length (workers c)) \<and> w = workers c ! nat n)"
    and "r = Fulfilled () \<longrightarrow>
           tr \<noteq> [] \<and> last tr = Tasks (ResumeWorkers wis) \<and>
           (\<forall>i\<in>set ids. \<forall>n. map_of (transfers c) i = Some (Assigned n) \<longrightarrow>
              0 \<le> n \<and> n < int (length (workers c)) \<and>
              Invoke Abort (workers c ! nat n) \<in> set tr) \<and>
           (\<forall>k<length (aborts tr). \<exists>i<length tr - 1. tr ! i = Settle k Resolve)"
    and "(\<exists>xs. Tasks (ResumeWorkers xs) \<in> set tr) \<longrightarrow> r = Fulfilled ()"
proof -
  have wis: "wis = workerIndexes_of c ids"
    by (simp add: assms(2) workerIndexes_of_def Map_get_def [abs_def])
  let ?ins = "instances_of c wis"
  let ?pre = "map (\<lambda>i. Emit ''transfer-abort'' (Ids [i])) ids @ [Tasks (DeleteTasks ids)]"
  from abortTransfer_shape[OF assms(1)] wis obtain ws rest where
    tr: "tr = ?pre @ Tasks (PauseWorkers wis) # map (Invoke Abort) ws @ rest" and
    pre: "prefix (map Some ws) ?ins" and
    rest: "rest = [] \<and> r = Rejected TypeError
             \<or> (\<exists>setts. map Some ws = ?ins
                  \<and> promise_all (length ws) [] sched = (setts, r)
                  \<and> rest = Await # setts @ (if r = Fulfilled () then [Tasks (ResumeWorkers wis)] else []))"
    by auto
  have rest_no_invoke: "\<forall>ev\<in>set rest. \<forall>w. ev \<noteq> Invoke Abort w"
    using rest by (auto dest: promise_all_settles)
  have ab: "aborts tr = ws"
    using rest_no_invoke by (simp add: tr aborts_append aborts_invokes aborts_none)
  let ?p = "length ?pre"
  have p1: "?p < length tr" "tr ! ?p = Tasks (PauseWorkers wis)"
    unfolding tr by (simp_all add: nth_append)
  have p2: "\<forall>j<length tr. \<forall>w. tr ! j = Invoke Abort w \<longrightarrow> ?p < j"
  proof (intro allI impI)
    fix j w assume j: "j < length tr" "tr ! j = Invoke Abort w"
    show "?p < j"
    proof (rule ccontr)
      assume "\<not> ?p < j"
      then have "j \<le> ?p" by simp
      then have "tr ! j \<in> set (?pre @ [Tasks (PauseWorkers wis)])"
        unfolding tr by (auto simp: nth_append nth_Cons' less_Suc_eq_le)
      with j(2) show False by auto
    qed
  qed
  from p1 p2 show "\<exists>p<length tr. tr ! p = Tasks (PauseWorkers wis) \<and>
           (\<forall>j<length tr. \<forall>w. tr ! j = Invoke Abort w \<longrightarrow> p < j)"
    by blast
  show "\<forall>w. Invoke Abort w \<in> set tr \<longrightarrow>
           (\<exists>i\<in>set ids. \<exists>n. map_of (transfers c) i = Some (Assigned n) \<and>
              0 \<le> n \<and> n < int (length (workers c)) \<and> w = workers c ! nat n)"
  proof (intro allI impI)
    fix w assume "Invoke Abort w \<in> set tr"
    then have "w \<in> set ws" using rest_no_invoke unfolding tr by auto
    then have "Some w \<in> set ?ins" using pre by (auto simp: prefix_def)
    from instances_of_assigned[OF this] obtain n where
      n: "Some (Assigned n) \<in> set wis" "Some w = getWorkerInstance c n" by auto
    from n(1) obtain i where i: "i \<in> set ids" "map_of (transfers c) i = Some (Assigned n)"
      unfolding assms(2) by auto
    from n(2) have "0 \<le> n \<and> n < int (length (workers c)) \<and> w = workers c ! nat n"
      by (auto simp: getWorkerInstance_def split: if_splits)
    with i show "\<exists>i\<in>set ids. \<exists>n. map_of (transfers c) i = Some (Assigned n) \<and>
              0 \<le> n \<and> n < int (length (workers c)) \<and> w = workers c ! nat n"
      by blast
  qed
  show "r = Fulfilled () \<longrightarrow>
           tr \<noteq> [] \<and> last tr = Tasks (ResumeWorkers wis) \<and>
           (\<forall>i\<in>set ids. \<forall>n. map_of (transfers c) i = Some (Assigned n) \<longrightarrow>
              0 \<le> n \<and> n < int (length (workers c)) \<and>
              Invoke Abort (workers c ! nat n) \<in> set tr) \<and>
           (\<forall>k<length (aborts tr). \<exists>i<length tr - 1. tr ! i = Settle k Resolve)"
  proof
    assume r: "r = Fulfilled ()"
    with rest obtain setts where s: "map Some ws = ?ins"
        "promise_all (length ws) [] sched = (setts, r)"
        "rest = Await # setts @ [Tasks (ResumeWorkers wis)]"
      by auto
    have l: "tr \<noteq> []" "last tr = Tasks (ResumeWorkers wis)"
      unfolding tr s(3) by simp_all
    have a: "\<forall>i\<in>set ids. \<forall>n. map_of (transfers c) i = Some (Assigned n) \<longrightarrow>
              0 \<le> n \<and> n < int (length (workers c)) \<and>
              Invoke Abort (workers c ! nat n) \<in> set tr"
    proof (intro ballI allI impI)
      fix i n assume i: "i \<in> set ids" "map_of (transfers c) i = Some (Assigned n)"
      then have "Some (Assigned n) \<in> set wis" unfolding assms(2) by force
      from instances_of_complete[OF this, of c] s(1)
      obtain w where w: "w \<in> set ws" "getWorkerInstance c n = Some w"
        by (metis (no_types, lifting) image_iff list.set_map)
      from w(2) have g: "0 \<le> n \<and> n < int (length (workers c)) \<and> w = workers c ! nat n"
        by (auto simp: getWorkerInstance_def split: if_splits)
      from w(1) have "Invoke Abort w \<in> set tr" unfolding tr by simp
      with g show "0 \<le> n \<and> n < int (length (workers c)) \<and>
              Invoke Abort (workers c ! nat n) \<in> set tr" by simp
    qed
    have st: "\<forall>k<length (aborts tr). \<exists>i<length tr - 1. tr ! i = Settle k Resolve"
    proof (intro allI impI)
      fix k assume "k < length (aborts tr)"
      then have k: "k < length ws" by (simp add: ab)
      from promise_all_fulfilled[of "length ws" "[]" sched setts k] s(2) r k
      have "Settle k Resolve \<in> set setts" by auto
      then obtain m where m: "m < length setts" "setts ! m = Settle k Resolve"
        by (auto simp: in_set_conv_nth)
      let ?a = "?pre @ Tasks (PauseWorkers wis) # map (Invoke Abort) ws @ [Await]"
      have tr': "tr = ?a @ setts @ [Tasks (ResumeWorkers wis)]"
        unfolding tr s(3) by simp
      have "tr ! (length ?a + m) = Settle k Resolve"
        unfolding tr' using m by (simp add: nth_append)
      moreover have "length ?a + m < length tr - 1"
        unfolding tr' using m by simp
      ultimately show "\<exists>i<length tr - 1. tr ! i = Settle k Resolve" by blast
    qed
    from l a st show "tr \<noteq> [] \<and> last tr = Tasks (ResumeWorkers wis) \<and>
           (\<forall>i\<in>set ids. \<forall>n. map_of (transfers c) i = Some (Assigned n) \<longrightarrow>
              0 \<le> n \<and> n < int (length (workers c)) \<and>
              Invoke Abort (workers c ! nat n) \<in> set tr) \<and>
           (\<forall>k<length (aborts tr). \<exists>i<length tr - 1. tr ! i = Settle k Resolve)"
      by blast
  qed
  show "(\<exists>xs. Tasks (ResumeWorkers xs) \<in> set tr) \<longrightarrow> r = Fulfilled ()"
    using rest unfolding tr by (auto dest: promise_all_settles split: if_splits)
qed


text \<open>
  C9. For every transfer identity given to \<open>abortTransfer\<close> whose registry value is
  unassigned, or which is not in the registry, the arguments of \<open>pauseWorkers\<close> hold
  that unassigned value at the position of the identity, \<open>resumeWorkers\<close> is called
  with the same arguments whenever it is called (and it is called when the method is
  fulfilled), and no \<open>abort()\<close> is invoked for the identity: the \<open>abort()\<close> calls are
  those of the same call without it, and there is none if every identity is
  unassigned.
\<close>

theorem abortTransfer_unassigned:
  assumes "abortTransfer c ids sched = (c', tr, r)"
    and "k < length ids"
    and "Map_get (transfers c) (ids ! k) = None \<or> Map_get (transfers c) (ids ! k) = Some Unassigned"
  shows "\<exists>wis. Tasks (PauseWorkers wis) \<in> set tr \<and> length wis = length ids \<and>
           wis ! k = Map_get (transfers c) (ids ! k) \<and>
           (\<forall>xs. Tasks (ResumeWorkers xs) \<in> set tr \<longrightarrow> xs = wis) \<and>
           (r = Fulfilled () \<longrightarrow> Tasks (ResumeWorkers wis) \<in> set tr) \<and>
           aborts tr = aborts (fst (snd (abortTransfer c (take k ids @ drop (Suc k) ids) sched))) \<and>
           ((\<forall>i<length ids. wis ! i = None \<or> wis ! i = Some Unassigned) \<longrightarrow>
              aborts tr = [] \<and> r = Fulfilled ())"
proof -
  let ?wis = "workerIndexes_of c ids"
  let ?ins = "instances_of c ?wis"
  let ?ids' = "take k ids @ drop (Suc k) ids"
  from abortTransfer_shape[OF assms(1)] obtain ws rest where
    tr: "tr = map (\<lambda>i. Emit ''transfer-abort'' (Ids [i])) ids
              @ [Tasks (DeleteTasks ids), Tasks (PauseWorkers ?wis)] @ map (Invoke Abort) ws @ rest" and
    pre: "prefix (map Some ws) ?ins" and
    rest: "rest = [] \<and> r = Rejected TypeError
             \<or> (\<exists>setts. map Some ws = ?ins
                  \<and> promise_all (length ws) [] sched = (setts, r)
                  \<and> rest = Await # setts @ (if r = Fulfilled () then [Tasks (ResumeWorkers ?wis)] else []))"
    by auto
  have len: "length ?wis = length ids" and nth: "?wis ! k = Map_get (transfers c) (ids ! k)"
    using assms(2) by (simp_all add: workerIndexes_of_def)
  have pause: "Tasks (PauseWorkers ?wis) \<in> set tr" unfolding tr by simp
  have resume: "\<forall>xs. Tasks (ResumeWorkers xs) \<in> set tr \<longrightarrow> xs = ?wis"
    using rest unfolding tr by (auto dest: promise_all_settles split: if_splits)
  have fin: "r = Fulfilled () \<longrightarrow> Tasks (ResumeWorkers ?wis) \<in> set tr"
    using rest unfolding tr by auto
  have wis': "workerIndexes_of c ?ids' = take k ?wis @ drop (Suc k) ?wis"
    by (simp add: workerIndexes_of_def take_map drop_map)
  have same: "instances_of c (workerIndexes_of c ?ids') = ?ins"
    unfolding wis' using instances_of_without[of k ?wis c] assms(2,3) len nth by simp
  obtain c2 tr2 r2 where run2: "abortTransfer c ?ids' sched = (c2, tr2, r2)"
    by (cases "abortTransfer c ?ids' sched") auto
  have "map (Invoke Abort) (aborts tr) = map (Invoke Abort) (aborts tr2)"
    using abortTransfer_aborts[OF assms(1)] abortTransfer_aborts[OF run2] same by simp
  then have ab: "aborts tr = aborts tr2"
    by (simp add: inj_on_def inj_map_eq_map[of "Invoke Abort"] inj_def)
  have none: "(\<forall>i<length ids. ?wis ! i = None \<or> ?wis ! i = Some Unassigned) \<longrightarrow>
              aborts tr = [] \<and> r = Fulfilled ()"
  proof
    assume a: "\<forall>i<length ids. ?wis ! i = None \<or> ?wis ! i = Some Unassigned"
    then have "\<forall>x\<in>set ?wis. x = None \<or> x = Some Unassigned"
      using len by (metis in_set_conv_nth)
    then have ins: "?ins = []" by (rule instances_of_unassigned)
    with assms(1) show "aborts tr = [] \<and> r = Fulfilled ()"
      by (auto simp: abortTransfer_def Let_def await_all_def aborts_append aborts_none
          promise_all_zero)
  qed
  from pause len nth resume fin ab none run2 show ?thesis
    by (intro exI[of _ ?wis]) simp
qed

theorem abortTransfer_unassigned_witness:
  "Map_get (transfers example_client) ([6, 99] ! 1) = None \<and>
   Map_get (transfers example_client) ([6, 99] ! 0) = Some Unassigned \<and>
   Tasks (PauseWorkers [Some Unassigned, None])
     \<in> set (fst (snd (abortTransfer example_client [6, 99] []))) \<and>
   Tasks (ResumeWorkers [Some Unassigned, None])
     \<in> set (fst (snd (abortTransfer example_client [6, 99] []))) \<and>
   aborts (fst (snd (abortTransfer example_client [6, 99] []))) = []"
proof -
  note run = abortTransfer_example_unassigned
  have k: "(1::nat) < length [6, 99 :: int]" by simp
  have g1: "Map_get (transfers example_client) ([6, 99] ! 1) = None"
    and g0: "Map_get (transfers example_client) ([6, 99] ! 0) = Some Unassigned"
    by (simp_all add: Map_get_def example_client_def)
  from abortTransfer_unassigned [OF run k disjI1 [OF g1]]
  obtain wis where w: "Tasks (PauseWorkers wis)
        \<in> set (fst (snd (abortTransfer example_client [6, 99] [])))"
      "Tasks (ResumeWorkers wis) \<in> set (fst (snd (abortTransfer example_client [6, 99] [])))"
      "aborts (fst (snd (abortTransfer example_client [6, 99] []))) =
         aborts (fst (snd (abortTransfer example_client (take 1 [6, 99] @ drop (Suc 1) [6, 99]) [])))"
    by (auto simp: run)
  from w(1) have "wis = [Some Unassigned, None]" by (simp add: run)
  moreover have "aborts (fst (snd (abortTransfer example_client (take 1 [6, 99] @ drop (Suc 1) [6, 99]) []))) = []"
    by (simp add: abortTransfer_def workerIndexes_of_def Map_get_def getWorkerInstance_def
      await_all_def example_client_def Let_def)
  ultimately show ?thesis using w g1 g0 by simp
qed

text \<open>
  C5. A call of \<open>abort()\<close> emits \<open>transfer-abort\<close> with the identities of the registry,
  all of them and in its order, then calls \<open>deleteAllTasks\<close>, which leaves no pending
  task and leaves the running tasks as they are, then invokes \<open>abort()\<close> on every
  worker of the pool, in order, and waits for these calls.
\<close>

theorem abort_effects:
  assumes "abort c sched = (c', tr, r)"
  shows "(\<exists>setts. tr = Emit ''transfer-abort'' (Ids (Map_keys (transfers c))) # Tasks DeleteAllTasks
                   # map (Invoke Abort) (workers c) @ Await # setts \<and>
                 (\<forall>ev\<in>set setts. \<exists>k out. ev = Settle k out)) \<and>
         (\<forall>k. k \<in> set (Map_keys (transfers c)) \<longleftrightarrow> Map_get (transfers c) k \<noteq> None) \<and>
         aborts tr = workers c \<and>
         pendingTasks (tasks c') = [] \<and> runningTasks (tasks c') = runningTasks (tasks c) \<and>
         transfers c' = transfers c \<and> workers c' = workers c"
proof -
  obtain setts r' where pa: "promise_all (length (workers c)) [] sched = (setts, r')"
    by (cases "promise_all (length (workers c)) [] sched")
  have s: "\<forall>ev\<in>set setts. \<exists>k out. ev = Settle k out"
    using pa by (auto dest: promise_all_settles)
  then have s': "\<forall>ev\<in>set (Await # setts). \<forall>w. ev \<noteq> Invoke Abort w" by auto
  have tr: "tr = Emit ''transfer-abort'' (Ids (Map_keys (transfers c))) # Tasks DeleteAllTasks
                   # map (Invoke Abort) (workers c) @ Await # setts"
    and c': "c' = c\<lparr>tasks := tasks_deleteAllTasks (tasks c)\<rparr>"
    using assms pa by (auto simp: abort_def await_all_def Let_def)
  have keys: "\<forall>k. k \<in> set (Map_keys (transfers c)) \<longleftrightarrow> Map_get (transfers c) k \<noteq> None"
    by (auto simp: Map_keys_def Map_get_def map_of_eq_None_iff)
  have ab: "aborts tr = workers c"
    unfolding tr using aborts_none[OF s'] by (simp add: aborts_append aborts_invokes)
  from tr s keys ab c' show ?thesis by (simp add: tasks_deleteAllTasks_def)
qed

theorem abort_effects_witness:
  "hd (fst (snd (abort example_client [(1, Resolve), (0, Resolve)]))) =
     Emit ''transfer-abort'' (Ids [5, 6]) \<and>
   aborts (fst (snd (abort example_client [(1, Resolve), (0, Resolve)]))) =
     [example_worker, example_worker] \<and>
   pendingTasks (tasks (fst (abort example_client [(1, Resolve), (0, Resolve)]))) = [] \<and>
   runningTasks (tasks (fst (abort example_client [(1, Resolve), (0, Resolve)]))) = [5] \<and>
   snd (snd (abort example_client [(1, Resolve), (0, Resolve)])) = Fulfilled ()"
proof -
  let ?X = "abort example_client [(1, Resolve), (0, Resolve)]"
  have run: "?X = (fst ?X, fst (snd ?X), snd (snd ?X))" by simp
  have r: "snd (snd ?X) = Fulfilled ()"
    by (simp add: abort_def await_all_def example_client_def Let_def)
  have e: "Map_keys (transfers example_client) = [5, 6]"
    "workers example_client = [example_worker, example_worker]"
    "runningTasks (tasks example_client) = [5]"
    by (simp_all add: Map_keys_def example_client_def)
  from abort_effects [OF run] e r show ?thesis by auto
qed

subsection \<open>Building the pool and connecting\<close>

text \<open>
  C7, as the source has it. \<open>setWorkers\<close> does not check the pool size: for every
  pool size below 1 the loop that creates the workers does not run, so it creates no
  worker and raises nothing; with pool size 0 and the transfer pool off \<open>setWorkers\<close>
  returns normally and leaves an empty pool with no group labels.
\<close>

theorem setWorkers_pool_below_one:
  assumes "pool (options c) < 1"
  shows "createWorkers 0 (pool (options c)) (c\<lparr>workers := []\<rparr>) = (c\<lparr>workers := []\<rparr>, None) \<and>
         (pool (options c) = 0 \<and> \<not> transferPool (options c) \<longrightarrow>
            setWorkers c = (c\<lparr>workers := [], tasks := (tasks c)\<lparr>taskWorkers := []\<rparr>\<rparr>, None))"
proof -
  have loop: "createWorkers 0 (pool (options c)) (c\<lparr>workers := []\<rparr>) = (c\<lparr>workers := []\<rparr>, None)"
    using assms by (intro createWorkers_done) simp
  have "setWorkers c = (c\<lparr>workers := [], tasks := (tasks c)\<lparr>taskWorkers := []\<rparr>\<rparr>, None)"
    if "pool (options c) = 0" and "\<not> transferPool (options c)"
    using loop that
    by (simp add: setWorkers_def Let_def setWorkerGroups_def repeat_def tasks_setWorkers_def)
  with loop show ?thesis by blast
qed

theorem setWorkers_pool_below_one_witness:
  "pool (options ((new_Client (Some 0) False)\<lparr>config := Some example_config\<rparr>)) < 1 \<and>
   snd (setWorkers ((new_Client (Some 0) False)\<lparr>config := Some example_config\<rparr>)) = None \<and>
   workers (fst (setWorkers ((new_Client (Some 0) False)\<lparr>config := Some example_config\<rparr>))) = [] \<and>
   taskWorkers (tasks (fst (setWorkers ((new_Client (Some 0) False)\<lparr>config := Some example_config\<rparr>)))) = []"
proof -
  let ?c = "(new_Client (Some 0) False)\<lparr>config := Some example_config\<rparr>"
  have h: "pool (options ?c) < 1" and z: "pool (options ?c) = 0 \<and> \<not> transferPool (options ?c)"
    by (simp_all add: new_Client_def)
  from setWorkers_pool_below_one [OF h] z h show ?thesis by simp
qed

text \<open>
  C7 as stated, that building a pool of size below 1 raises a configuration error,
  fails for pool size 0: \<open>setWorkers\<close> returns without an error.
\<close>

theorem setWorkers_pool_zero_counterexample:
  "setWorkers ((new_Client (Some 0) False)\<lparr>config := Some example_config\<rparr>) =
     ((new_Client (Some 0) False)\<lparr>config := Some example_config\<rparr>, None)"
  by (simp add: setWorkers_def new_Client_def createWorkers.simps [of 0 0] setWorkerGroups_def
      repeat_def tasks_setWorkers_def new_TasksManager_def Let_def)

text \<open>
  C8, as the source has it. For every config whose protocol has no registered
  strategy and is not the name of a member that every object inherits, if the pool
  size is at least 1 and the \<open>disconnect()\<close> of the current workers is fulfilled, then
  \<open>connect\<close> fails with the error that names the protocol. The failure is the rejection
  of the promise of \<open>connect\<close> and comes after the suspension at
  \<open>await this.disconnect()\<close>; by then the config is saved and the worker list is empty.
\<close>

theorem connect_missing_strategy:
  assumes "(case cfg of Some x \<Rightarrow> Some x | None \<Rightarrow> config c) = Some k"
    and "map_of (strategies c) (protocol k) = None"
    and "protocol k \<notin> set object_prototype_keys"
    and "1 \<le> pool (options c)"
    and "snd (disconnect c sched_d) = Fulfilled ()"
  shows "\<exists>c' tr. connect c cfg opts sched_d sched_c =
            (c', tr, Rejected (Error (''Strategy for protocol '' @ protocol k @ '' not found.''))) \<and>
          tr = fst (disconnect c sched_d) \<and> Await \<in> set tr \<and>
          config c' = Some k \<and> workers c' = []"
proof -
  obtain tr1 where d: "disconnect c sched_d = (tr1, Fulfilled ())"
    using assms(5) by (cases "disconnect c sched_d") auto
  have aw: "Await \<in> set tr1"
    using d by (auto simp: disconnect_def await_all_def Let_def split: prod.splits)
  let ?c1 = "c\<lparr>config := Some k,
               connectionOptions := (case opts of Some x \<Rightarrow> Some x | None \<Rightarrow> connectionOptions c)\<rparr>"
  let ?err = "Error (''Strategy for protocol '' @ protocol k @ '' not found.'')"
  have cw: "createWorker (?c1\<lparr>workers := []\<rparr>) = Inl ?err"
    using assms(2,3) by (simp add: createWorker_def strategies_lookup_def)
  have "createWorkers 0 (pool (options (?c1\<lparr>workers := []\<rparr>))) (?c1\<lparr>workers := []\<rparr>)
          = (?c1\<lparr>workers := []\<rparr>, Some ?err)"
    using assms(4) cw by (intro createWorkers_throws) simp_all
  then have sw: "setWorkers ?c1 = (?c1\<lparr>workers := []\<rparr>, Some ?err)"
    by (simp add: setWorkers_def Let_def)
  have nc: "\<not> (config c = None \<and> cfg = None)"
    using assms(1) by (auto split: option.splits)
  have "connect c cfg opts sched_d sched_c = (?c1\<lparr>workers := []\<rparr>, tr1, Rejected ?err)"
    using nc d sw assms(1) by (simp add: connect_def Let_def)
  with d aw show ?thesis by simp
qed

theorem connect_missing_strategy_witness:
  "map_of (strategies example_client) ''http'' = None \<and>
   ''http'' \<notin> set object_prototype_keys \<and>
   1 \<le> pool (options example_client) \<and>
   snd (disconnect example_client [(1, Resolve), (0, Resolve)]) = Fulfilled () \<and>
   snd (connect example_client (Some \<lparr>protocol = ''http'', host = ''example.org''\<rparr>) None
          [(1, Resolve), (0, Resolve)] []) =
     ([Invoke Disconnect example_worker, Invoke Disconnect example_worker, Await,
       Settle 1 Resolve, Settle 0 Resolve],
      Rejected (Error ''Strategy for protocol http not found.''))"
proof -
  let ?k = "\<lparr>protocol = ''http'', host = ''example.org''\<rparr>"
  have h1: "(case Some ?k of Some x \<Rightarrow> Some x | None \<Rightarrow> config example_client) = Some ?k"
    by simp
  have h2: "map_of (strategies example_client) (protocol ?k) = None"
    by (simp add: example_client_def)
  have h3: "protocol ?k \<notin> set object_prototype_keys"
    by (simp add: object_prototype_keys_def)
  have h4: "1 \<le> pool (options example_client)"
    by (simp add: example_client_def)
  have d: "disconnect example_client [(1, Resolve), (0, Resolve)] =
     ([Invoke Disconnect example_worker, Invoke Disconnect example_worker, Await,
       Settle 1 Resolve, Settle 0 Resolve], Fulfilled ())"
    by (simp add: disconnect_def await_all_def example_client_def Let_def)
  then have h5: "snd (disconnect example_client [(1, Resolve), (0, Resolve)]) = Fulfilled ()"
    by simp
  from connect_missing_strategy [OF h1 h2 h3 h4 h5, of None "[]"] d h2 h3 h4
  show ?thesis by auto
qed

text \<open>
  C8 as stated fails for the protocol \<open>http\<close>, which has no strategy: with the
  default pool of 1 the error comes after a suspension point, and with a pool of 0
  \<open>connect\<close> does not fail at all. For the protocol \<open>constructor\<close>, which has no
  strategy either, the lookup finds what every object inherits, and the error is a
  TypeError that names no strategy.
\<close>

theorem connect_missing_strategy_counterexample:
  "snd (connect (new_Client (Some 1) False) (Some \<lparr>protocol = ''http'', host = ''example.org''\<rparr>)
          None [] []) =
     ([Await], Rejected (Error ''Strategy for protocol http not found.'')) \<and>
   snd (connect (new_Client (Some 0) False) (Some \<lparr>protocol = ''http'', host = ''example.org''\<rparr>)
          None [] []) =
     ([Await, Await], Fulfilled ()) \<and>
   snd (connect (new_Client (Some 1) False)
          (Some \<lparr>protocol = ''constructor'', host = ''example.org''\<rparr>) None [] []) =
     ([Await], Rejected TypeError)"
  by (simp add: connect_def disconnect_def await_all_def setWorkers_def new_Client_def
      createWorkers.simps [of 0 0] createWorkers.simps [of 0 1] createWorker_def
      handleWorkerEvents_def strategies_lookup_def object_prototype_keys_def
      setWorkerGroups_def repeat_def tasks_setWorkers_def new_TasksManager_def Let_def)

text \<open>
  C10. \<open>connect\<close> without a config argument on a client that has no saved config
  fails with the message \<open>Config must be provided!\<close> before any suspension point (its
  trace is empty, so no worker is disconnected or replaced) and leaves every field of
  the client, the saved config and the connection options among them, as it was.
  \<open>connect\<close> is an \<open>async\<close> method: its \<open>throw\<close> is the rejection of the promise it
  returns, which is already rejected when the call returns.
\<close>

theorem connect_without_config:
  assumes "config c = None"
  shows "connect c None opts sched_d sched_c = (c, [], Rejected (Error ''Config must be provided!''))"
  using assms by (simp add: connect_def)

theorem connect_without_config_witness:
  "config (new_Client None False) = None \<and>
   connect (new_Client None False) None None [] [] =
     (new_Client None False, [], Rejected (Error ''Config must be provided!''))"
proof -
  have h: "config (new_Client None False) = None" by (simp add: new_Client_def)
  from connect_without_config [OF h] h show ?thesis by simp
qed

end
